theory Spec2Isabelle
  imports Complex_Main "HOL-Library.Sublist"
begin

section \<open>The sliding-window context manager of \<^verbatim>\<open>context.py\<close>\<close>

text \<open>
  The module \<^verbatim>\<open>examples/agent-context-manager/context.py\<close> holds a default
  token estimator and the class \<^verbatim>\<open>ContextWindow\<close>. Python's unbounded integers
  are \<^typ>\<open>int\<close>; a Python \<^verbatim>\<open>str\<close> is a \<^typ>\<open>string\<close>, a list whose
  elements stand for the code points that \<^verbatim>\<open>len\<close> counts. A message is the
  dictionary \<^verbatim>\<open>{"role": ..., "content": ...}\<close>, always built with these two keys.
\<close>

subsection \<open>Data\<close>

record message =
  role :: string
  content :: string

text \<open>
  The attributes of a \<^verbatim>\<open>ContextWindow\<close> object. \<^verbatim>\<open>self.system\<close> is
  \<^verbatim>\<open>None\<close> or a two-key dictionary; a non-empty dictionary is truthy, so the test
  \<^verbatim>\<open>if self.system:\<close> is the test for \<open>Some\<close>.
\<close>

record ContextWindow =
  max_tokens :: int
  reserve_tokens :: int
  count_tokens :: "string \<Rightarrow> int"
  system :: "message option"
  messages :: "message list"

subsection \<open>The default estimator\<close>

text \<open>\<^verbatim>\<open>return max(1, len(text) // 4)\<close>; \<^verbatim>\<open>//\<close> is floor division on integers.\<close>

definition estimate_tokens :: "string \<Rightarrow> int" where
  "estimate_tokens txt = max 1 (int (length txt) div 4)"

subsection \<open>Construction and mutators\<close>

text \<open>
  What a caller passes as \<^verbatim>\<open>token_counter\<close>, when it is not \<^verbatim>\<open>None\<close>:
  an object with a truth value and a result when called on a string. A function, a lambda
  and a builtin such as \<^verbatim>\<open>len\<close> are truthy; an object of a class with
  \<^verbatim>\<open>__call__\<close> whose \<^verbatim>\<open>__bool__\<close> returns \<^verbatim>\<open>False\<close> (or whose
  \<^verbatim>\<open>__len__\<close> returns 0) is falsy.
\<close>

datatype callable = Callable (truth: bool) (call: "string \<Rightarrow> int")

text \<open>
  \<^verbatim>\<open>__init__(self, max_tokens=4096, reserve_tokens=512, token_counter=None)\<close>:
  no argument is checked and nothing is raised. The expression
  \<^verbatim>\<open>token_counter or estimate_tokens\<close> is \<^verbatim>\<open>token_counter\<close> when that is
  truthy and \<^verbatim>\<open>estimate_tokens\<close> otherwise: the default replaces
  \<^verbatim>\<open>None\<close> and also a falsy callable.
\<close>

definition init :: "int \<Rightarrow> int \<Rightarrow> callable option \<Rightarrow> ContextWindow" where
  "init mt rt token_counter =
     \<lparr>max_tokens = mt,
      reserve_tokens = rt,
      count_tokens =
        (case token_counter of
           None \<Rightarrow> estimate_tokens
         | Some c \<Rightarrow> if truth c then call c else estimate_tokens),
      system = None,
      messages = []\<rparr>"

definition init_default :: ContextWindow where
  "init_default = init 4096 512 None"

definition set_system :: "ContextWindow \<Rightarrow> string \<Rightarrow> ContextWindow" where
  "set_system self c = self\<lparr>system := Some \<lparr>role = ''system'', content = c\<rparr>\<rparr>"

definition add :: "ContextWindow \<Rightarrow> string \<Rightarrow> string \<Rightarrow> ContextWindow" where
  "add self r c = self\<lparr>messages := messages self @ [\<lparr>role = r, content = c\<rparr>]\<rparr>"

definition add_user :: "ContextWindow \<Rightarrow> string \<Rightarrow> ContextWindow" where
  "add_user self c = add self ''user'' c"

definition add_assistant :: "ContextWindow \<Rightarrow> string \<Rightarrow> ContextWindow" where
  "add_assistant self c = add self ''assistant'' c"

definition clear :: "ContextWindow \<Rightarrow> bool \<Rightarrow> ContextWindow" where
  "clear self keep_system =
     (let self = self\<lparr>messages := []\<rparr>
      in if \<not> keep_system then self\<lparr>system := None\<rparr> else self)"

subsection \<open>Accounting and rendering\<close>

text \<open>\<^verbatim>\<open>_message_tokens\<close>: \<^verbatim>\<open>self.count_tokens(msg["content"]) + 4\<close>.\<close>

definition message_tokens :: "ContextWindow \<Rightarrow> message \<Rightarrow> int" where
  "message_tokens self msg = count_tokens self (content msg) + 4"

text \<open>
  The loop of \<^verbatim>\<open>render\<close> over \<^verbatim>\<open>reversed(self.messages)\<close>. The third
  argument is what is left of the reversed history; \<open>kept\<close> and \<open>used\<close> are the
  loop's two variables. \<^verbatim>\<open>break\<close> returns the list collected so far.
\<close>

fun render_loop :: "ContextWindow \<Rightarrow> int \<Rightarrow> message list \<Rightarrow> message list \<Rightarrow> int \<Rightarrow> message list" where
  "render_loop self budget [] kept used = kept"
| "render_loop self budget (msg # rest) kept used =
     (let msg_tokens = message_tokens self msg
      in if used + msg_tokens > budget then kept
         else render_loop self budget rest (kept @ [msg]) (used + msg_tokens))"

definition render :: "ContextWindow \<Rightarrow> message list" where
  "render self =
     (let budget = max_tokens self - reserve_tokens self;
          budget = (case system self of None \<Rightarrow> budget
                    | Some s \<Rightarrow> budget - message_tokens self s);
          kept = rev (render_loop self budget (rev (messages self)) [] 0);
          result = (case system self of None \<Rightarrow> [] | Some s \<Rightarrow> [s])
      in result @ kept)"

text \<open>\<^verbatim>\<open>token_count\<close>: a running total over the pinned message and the history.\<close>

definition token_count :: "ContextWindow \<Rightarrow> int" where
  "token_count self =
     (let total = (case system self of None \<Rightarrow> 0 | Some s \<Rightarrow> 0 + message_tokens self s)
      in foldl (\<lambda>total msg. total + message_tokens self msg) total (messages self))"

definition available_tokens :: "ContextWindow \<Rightarrow> int" where
  "available_tokens self =
     (let rendered = render self;
          used = sum_list (map (message_tokens self) rendered)
      in max_tokens self - used)"

subsection \<open>The object's interface as state passing\<close>

text \<open>
  A method call takes the object's state and gives back what the method returns together
  with the state it leaves. \<^verbatim>\<open>render\<close>, \<^verbatim>\<open>token_count\<close> and
  \<^verbatim>\<open>available_tokens\<close> assign to no attribute (\<^verbatim>\<open>reversed\<close> is an iterator
  and \<^verbatim>\<open>kept.reverse()\<close> works on a local list), so they hand the state back as
  it was; the other methods return \<^verbatim>\<open>None\<close>.
\<close>

datatype call =
    SetSystem string
  | Add string string
  | AddUser string
  | AddAssistant string
  | Render
  | TokenCount
  | AvailableTokens
  | Clear bool

datatype reply = NoneReply | Msgs "message list" | Tokens int

fun exec :: "call \<Rightarrow> ContextWindow \<Rightarrow> reply \<times> ContextWindow" where
  "exec (SetSystem c) self = (NoneReply, set_system self c)"
| "exec (Add r c) self = (NoneReply, add self r c)"
| "exec (AddUser c) self = (NoneReply, add_user self c)"
| "exec (AddAssistant c) self = (NoneReply, add_assistant self c)"
| "exec Render self = (Msgs (render self), self)"
| "exec TokenCount self = (Tokens (token_count self), self)"
| "exec AvailableTokens self = (Tokens (available_tokens self), self)"
| "exec (Clear keep_system) self = (NoneReply, clear self keep_system)"

text \<open>A sequence of calls, one after the other, keeping the state of the last.\<close>

fun exec_all :: "call list \<Rightarrow> ContextWindow \<Rightarrow> ContextWindow" where
  "exec_all [] self = self"
| "exec_all (c # cs) self = exec_all cs (snd (exec c self))"

subsection \<open>The object with its lists and dictionaries on a heap\<close>

text \<open>
  Python lists and dictionaries are objects reached by reference, and
  \<^verbatim>\<open>render\<close> works by mutating lists (\<^verbatim>\<open>append\<close>,
  \<^verbatim>\<open>reverse\<close>, \<^verbatim>\<open>extend\<close>). Here the heap has a cell for every list
  object, holding the references of its elements, and a cell for every message dictionary;
  \<open>next_list\<close> is the first address that no list object has yet.
\<close>

type_synonym ref = nat

record heap =
  list_at :: "ref \<Rightarrow> ref list"
  dict_at :: "ref \<Rightarrow> message"
  next_list :: ref

text \<open>
  The attributes of the instance: \<^verbatim>\<open>self.system\<close> is \<^verbatim>\<open>None\<close> or a
  reference to a dictionary, \<^verbatim>\<open>self.messages\<close> a reference to a list object.
\<close>

record instance_attrs =
  max_tokens_attr :: int
  reserve_tokens_attr :: int
  count_tokens_attr :: "string \<Rightarrow> int"
  system_attr :: "ref option"
  messages_attr :: ref

text \<open>
  The list operations \<^verbatim>\<open>render\<close> uses: the display \<^verbatim>\<open>[]\<close> makes a new
  list object; \<^verbatim>\<open>l.append(x)\<close>, \<^verbatim>\<open>l.reverse()\<close> and
  \<^verbatim>\<open>l.extend(l')\<close> change the object \<open>l\<close> in place.
\<close>

definition new_list :: "heap \<Rightarrow> ref \<times> heap" where
  "new_list h =
     (next_list h, h\<lparr>list_at := (list_at h)(next_list h := []), next_list := Suc (next_list h)\<rparr>)"

definition list_append :: "heap \<Rightarrow> ref \<Rightarrow> ref \<Rightarrow> heap" where
  "list_append h l x = h\<lparr>list_at := (list_at h)(l := list_at h l @ [x])\<rparr>"

definition list_reverse :: "heap \<Rightarrow> ref \<Rightarrow> heap" where
  "list_reverse h l = h\<lparr>list_at := (list_at h)(l := rev (list_at h l))\<rparr>"

definition list_extend :: "heap \<Rightarrow> ref \<Rightarrow> ref \<Rightarrow> heap" where
  "list_extend h l l' = h\<lparr>list_at := (list_at h)(l := list_at h l @ list_at h l')\<rparr>"

definition message_tokens_h :: "instance_attrs \<Rightarrow> heap \<Rightarrow> ref \<Rightarrow> int" where
  "message_tokens_h self h msg = count_tokens_attr self (content (dict_at h msg)) + 4"

text \<open>
  The loop \<^verbatim>\<open>for msg in reversed(self.messages)\<close>. The iterator keeps an index
  into the list object and reads the list at each step: at index \<open>i\<close> it yields
  element \<open>i\<close> if \<open>i\<close> is less than the list's current length, and goes on to
  \<open>i - 1\<close>; otherwise the loop ends. The argument \<open>Suc i\<close> stands for the index
  \<open>i\<close>, and \<open>0\<close> for the exhausted iterator. \<open>kept\<close> is the reference of the
  local list.
\<close>

fun render_loop_h :: "instance_attrs \<Rightarrow> int \<Rightarrow> nat \<Rightarrow> ref \<Rightarrow> int \<Rightarrow> heap \<Rightarrow> heap" where
  "render_loop_h self budget 0 kept used h = h"
| "render_loop_h self budget (Suc i) kept used h =
     (if i < length (list_at h (messages_attr self)) then
        (let msg = list_at h (messages_attr self) ! i;
             msg_tokens = message_tokens_h self h msg
         in if used + msg_tokens > budget then h
            else render_loop_h self budget i kept (used + msg_tokens) (list_append h kept msg))
      else h)"

text \<open>
  \<^verbatim>\<open>render\<close>, statement by statement; it returns the reference of
  \<open>result\<close> and the heap it leaves. It assigns to no attribute of \<open>self\<close>.
\<close>

definition render_h :: "instance_attrs \<Rightarrow> heap \<Rightarrow> ref \<times> heap" where
  "render_h self h =
     (let budget = max_tokens_attr self - reserve_tokens_attr self;
          (result, h) = new_list h;
          budget = (case system_attr self of None \<Rightarrow> budget
                    | Some s \<Rightarrow> budget - message_tokens_h self h s);
          (kept, h) = new_list h;
          h = render_loop_h self budget (length (list_at h (messages_attr self))) kept 0 h;
          h = list_reverse h kept;
          h = (case system_attr self of None \<Rightarrow> h | Some s \<Rightarrow> list_append h result s);
          h = list_extend h result kept
      in (result, h))"

text \<open>The state that an instance and a heap stand for: every reference followed.\<close>

definition state_of :: "instance_attrs \<Rightarrow> heap \<Rightarrow> ContextWindow" where
  "state_of self h =
     \<lparr>max_tokens = max_tokens_attr self,
      reserve_tokens = reserve_tokens_attr self,
      count_tokens = count_tokens_attr self,
      system = map_option (dict_at h) (system_attr self),
      messages = map (dict_at h) (list_at h (messages_attr self))\<rparr>"

text \<open>
  For the proofs: the references the loop appends to \<open>kept\<close>, as a function of the
  references it walks, of their costs and of the budget.
\<close>

fun kept_refs :: "(ref \<Rightarrow> int) \<Rightarrow> int \<Rightarrow> int \<Rightarrow> ref list \<Rightarrow> ref list" where
  "kept_refs cost budget used [] = []"
| "kept_refs cost budget used (r # rs) =
     (if used + cost r > budget then []
      else r # kept_refs cost budget (used + cost r) rs)"

subsection \<open>Estimators of the scenarios\<close>

text \<open>
  Two callables a caller can pass as \<^verbatim>\<open>token_counter\<close>: one that returns
  \<^verbatim>\<open>len(text)\<close>, the estimator of the specification's scenarios, and one that
  returns 0 on every input.
\<close>

definition len_counter :: "string \<Rightarrow> int" where
  "len_counter txt = int (length txt)"

definition zero_counter :: "string \<Rightarrow> int" where
  "zero_counter txt = 0"

subsection \<open>The specification's rendering algorithm\<close>

text \<open>
  The next three definitions follow the words of the specification, not the code; they
  are what \<^const>\<open>render\<close> is compared with. The accounted cost of a message is the
  estimator's value on its content plus the fixed overhead. The walk goes over the history
  from the most recent message to the least recent: a message with
  \<open>used + cost > budget\<close> stops the walk, it and everything older being dropped;
  otherwise the message is kept and \<open>used\<close> grows by its cost. The kept messages,
  reversed to chronological order, follow the pinned message when one is set, whose cost
  has been taken off the budget \<open>max_tokens - reserve_tokens\<close>.
\<close>

definition spec_cost :: "ContextWindow \<Rightarrow> message \<Rightarrow> int" where
  "spec_cost self m = count_tokens self (content m) + 4"

fun spec_walk :: "(message \<Rightarrow> int) \<Rightarrow> int \<Rightarrow> int \<Rightarrow> message list \<Rightarrow> message list" where
  "spec_walk cost budget used [] = []"
| "spec_walk cost budget used (m # older) =
     (if used + cost m > budget then []
      else m # spec_walk cost budget (used + cost m) older)"

definition spec_render :: "ContextWindow \<Rightarrow> message list" where
  "spec_render self =
     (case system self of
        None \<Rightarrow>
          rev (spec_walk (spec_cost self) (max_tokens self - reserve_tokens self) 0
                 (rev (messages self)))
      | Some p \<Rightarrow>
          p # rev (spec_walk (spec_cost self)
                     (max_tokens self - reserve_tokens self - spec_cost self p) 0
                     (rev (messages self))))"

section \<open>Facts about the loop and the accounting\<close>

lemma render_loop_acc:
  "render_loop self budget xs kept used = kept @ render_loop self budget xs [] used"
proof (induction xs arbitrary: kept used)
  case Nil
  show ?case by simp
next
  case (Cons x xs)
  show ?case
    using Cons.IH [of "kept @ [x]"] Cons.IH [of "[x]"]
    by (simp add: Let_def)
qed

lemma render_loop_Cons:
  "render_loop self budget (x # xs) [] used =
     (if used + message_tokens self x > budget then []
      else x # render_loop self budget xs [] (used + message_tokens self x))"
  using render_loop_acc [of self budget xs "[x]"] by (simp add: Let_def)

lemma render_loop_prefix: "prefix (render_loop self budget xs [] used) xs"
  by (induction xs arbitrary: used) (simp_all add: render_loop_Cons del: render_loop.simps(2))

lemma render_loop_spec_walk:
  "render_loop self budget xs [] used = spec_walk (message_tokens self) budget used xs"
  by (induction xs arbitrary: used) (simp_all add: render_loop_Cons del: render_loop.simps(2))

lemma render_loop_nothing_fits:
  assumes "\<forall>m\<in>set xs. 1 \<le> count_tokens self (content m)" and "budget \<le> used + 4"
  shows "render_loop self budget xs [] used = []"
  using assms by (cases xs) (auto simp: render_loop_Cons message_tokens_def simp del: render_loop.simps(2))

lemma render_kept:
  "render self = (case system self of None \<Rightarrow> [] | Some s \<Rightarrow> [s]) @
     rev (render_loop self
            (max_tokens self - reserve_tokens self -
               (case system self of None \<Rightarrow> 0 | Some s \<Rightarrow> message_tokens self s))
            (rev (messages self)) [] 0)"
  by (simp add: render_def Let_def split: option.split)

lemma token_count_foldl:
  "foldl (\<lambda>total msg. total + message_tokens self msg) a ms =
     a + sum_list (map (message_tokens self) ms)"
  by (induction ms arbitrary: a) simp_all

lemma token_count_sum:
  "token_count self =
     (case system self of None \<Rightarrow> 0 | Some s \<Rightarrow> message_tokens self s) +
     sum_list (map (message_tokens self) (messages self))"
  by (simp add: token_count_def token_count_foldl split: option.split)

lemma estimate_tokens_pos: "1 \<le> estimate_tokens txt"
  by (simp add: estimate_tokens_def)

lemma render_loop_sum_cases:
  "render_loop self budget xs [] used = [] \<or>
   used + sum_list (map (message_tokens self) (render_loop self budget xs [] used)) \<le> budget"
proof (induction xs arbitrary: used)
  case Nil
  show ?case by simp
next
  case (Cons x xs)
  show ?case
    using Cons.IH [of "used + message_tokens self x"]
    by (auto simp: render_loop_Cons simp del: render_loop.simps(2))
qed

lemma render_loop_sum_max:
  "sum_list (map (message_tokens self) (render_loop self budget xs [] 0)) \<le> max 0 budget"
  using render_loop_sum_cases [of self budget xs 0] by auto

lemma sum_render:
  "sum_list (map (message_tokens self) (render self)) =
     (case system self of None \<Rightarrow> 0 | Some s \<Rightarrow> message_tokens self s) +
     sum_list (map (message_tokens self)
       (render_loop self
          (max_tokens self - reserve_tokens self -
             (case system self of None \<Rightarrow> 0 | Some s \<Rightarrow> message_tokens self s))
          (rev (messages self)) [] 0))"
  by (simp add: render_kept rev_map [symmetric] split: option.split)

lemma available_tokens_sum:
  "available_tokens self =
     max_tokens self - sum_list (map (message_tokens self) (render self))"
  by (simp add: available_tokens_def Let_def)

lemma available_tokens_clamped:
  "min (reserve_tokens self)
       (max_tokens self - (case system self of None \<Rightarrow> 0 | Some s \<Rightarrow> message_tokens self s))
     \<le> available_tokens self"
  using render_loop_sum_max [of self
      "max_tokens self - reserve_tokens self -
         (case system self of None \<Rightarrow> 0 | Some s \<Rightarrow> message_tokens self s)"
      "rev (messages self)"]
  by (simp add: available_tokens_sum sum_render)

lemma exec_count_tokens: "count_tokens (snd (exec c self)) = count_tokens self"
  by (cases c)
    (simp_all add: set_system_def add_def add_user_def add_assistant_def clear_def Let_def)

lemma exec_all_count_tokens: "count_tokens (exec_all cs self) = count_tokens self"
  by (induction cs arbitrary: self) (simp_all add: exec_count_tokens)

lemma message_tokens_cong:
  "count_tokens self' = count_tokens self \<Longrightarrow> message_tokens self' = message_tokens self"
  by (rule ext) (simp add: message_tokens_def)

lemma token_count_add:
  "token_count (add self r c) = token_count self + message_tokens self \<lparr>role = r, content = c\<rparr>"
proof -
  have "message_tokens (add self r c) = message_tokens self"
    by (rule message_tokens_cong) (simp add: add_def)
  moreover have "system (add self r c) = system self"
    and "messages (add self r c) = messages self @ [\<lparr>role = r, content = c\<rparr>]"
    by (simp_all add: add_def)
  ultimately show ?thesis
    by (simp add: token_count_sum split: option.split)
qed

lemma token_count_add_all:
  "token_count (exec_all (map (\<lambda>m. Add (role m) (content m)) ms) self) =
     token_count self + sum_list (map (message_tokens self) ms)"
proof (induction ms arbitrary: self)
  case Nil
  show ?case by simp
next
  case (Cons m ms)
  have "message_tokens (add self (role m) (content m)) = message_tokens self"
    by (rule message_tokens_cong) (simp add: add_def)
  moreover have "message_tokens self \<lparr>role = role m, content = content m\<rparr> = message_tokens self m"
    by (simp add: message_tokens_def)
  ultimately show ?case
    by (simp add: Cons.IH token_count_add)
qed

lemma sum_list_lower:
  "\<forall>x\<in>set xs. (c::int) \<le> f x \<Longrightarrow> c * int (length xs) \<le> sum_list (map f xs)"
  by (induction xs) (simp_all add: algebra_simps)

subsection \<open>Rendering on the heap\<close>

lemma render_loop_h_kept:
  "kept \<noteq> messages_attr self \<Longrightarrow> i \<le> length (list_at h (messages_attr self)) \<Longrightarrow>
   render_loop_h self budget i kept used h =
     h\<lparr>list_at := (list_at h)(kept := list_at h kept @
          kept_refs (\<lambda>r. count_tokens_attr self (content (dict_at h r)) + 4) budget used
            (rev (take i (list_at h (messages_attr self)))))\<rparr>"
proof (induction i arbitrary: used h)
  case 0
  show ?case by simp
next
  case (Suc i)
  let ?L = "list_at h (messages_attr self)"
  from Suc.prems have i: "i < length ?L" by simp
  then have walked: "rev (take (Suc i) ?L) = ?L ! i # rev (take i ?L)"
    by (simp add: take_Suc_conv_app_nth)
  show ?case
  proof (cases "used + message_tokens_h self h (?L ! i) > budget")
    case True
    with i walked show ?thesis
      by (simp add: message_tokens_h_def Let_def)
  next
    case False
    let ?h = "list_append h kept (?L ! i)"
    have same: "list_at ?h (messages_attr self) = ?L" "dict_at ?h = dict_at h"
      using Suc.prems(1) by (simp_all add: list_append_def)
    have "render_loop_h self budget i kept (used + message_tokens_h self h (?L ! i)) ?h =
        ?h\<lparr>list_at := (list_at ?h)(kept := list_at ?h kept @
          kept_refs (\<lambda>r. count_tokens_attr self (content (dict_at ?h r)) + 4) budget
            (used + message_tokens_h self h (?L ! i))
            (rev (take i (list_at ?h (messages_attr self)))))\<rparr>"
      using Suc.prems(1) i by (intro Suc.IH) (simp_all add: same)
    with False i walked Suc.prems(1) show ?thesis
      by (intro heap.equality)
        (simp_all add: same Let_def message_tokens_h_def list_append_def fun_eq_iff)
  qed
qed

lemma render_h_result:
  assumes "messages_attr self < next_list h"
  shows "render_h self h =
     (next_list h,
      h\<lparr>list_at := (list_at h)
           (next_list h :=
              (case system_attr self of None \<Rightarrow> [] | Some s \<Rightarrow> [s]) @
              rev (kept_refs (\<lambda>r. count_tokens_attr self (content (dict_at h r)) + 4)
                (max_tokens_attr self - reserve_tokens_attr self -
                   (case system_attr self of None \<Rightarrow> 0
                    | Some s \<Rightarrow> count_tokens_attr self (content (dict_at h s)) + 4))
                0 (rev (list_at h (messages_attr self)))),
            Suc (next_list h) :=
              rev (kept_refs (\<lambda>r. count_tokens_attr self (content (dict_at h r)) + 4)
                (max_tokens_attr self - reserve_tokens_attr self -
                   (case system_attr self of None \<Rightarrow> 0
                    | Some s \<Rightarrow> count_tokens_attr self (content (dict_at h s)) + 4))
                0 (rev (list_at h (messages_attr self))))),
         next_list := Suc (Suc (next_list h))\<rparr>)"
proof -
  let ?h2 = "snd (new_list (snd (new_list h)))"
  have k: "Suc (next_list h) \<noteq> messages_attr self" and r: "next_list h \<noteq> messages_attr self"
    using assms by simp_all
  have L: "list_at ?h2 (messages_attr self) = list_at h (messages_attr self)"
    using k r by (simp add: new_list_def)
  show ?thesis
    using k r
    by (cases "system_attr self")
      (auto simp: render_h_def Let_def new_list_def render_loop_h_kept
        list_reverse_def list_append_def list_extend_def message_tokens_h_def fun_eq_iff
        intro!: heap.equality)
qed

lemma kept_refs_render_loop:
  "count_tokens cw = ct \<Longrightarrow>
   map d (kept_refs (\<lambda>r. ct (content (d r)) + 4) budget used refs) =
     render_loop cw budget (map d refs) [] used"
  by (induction refs arbitrary: used)
    (simp_all add: render_loop_Cons message_tokens_def del: render_loop.simps(2))

lemma render_state_of:
  "render (state_of self h) =
     map (dict_at h)
       ((case system_attr self of None \<Rightarrow> [] | Some s \<Rightarrow> [s]) @
        rev (kept_refs (\<lambda>r. count_tokens_attr self (content (dict_at h r)) + 4)
          (max_tokens_attr self - reserve_tokens_attr self -
             (case system_attr self of None \<Rightarrow> 0
              | Some s \<Rightarrow> count_tokens_attr self (content (dict_at h s)) + 4))
          0 (rev (list_at h (messages_attr self)))))"
proof -
  let ?cost = "\<lambda>r. count_tokens_attr self (content (dict_at h r)) + 4"
  let ?budget = "max_tokens_attr self - reserve_tokens_attr self -
      (case system_attr self of None \<Rightarrow> 0
       | Some s \<Rightarrow> count_tokens_attr self (content (dict_at h s)) + 4)"
  let ?L = "list_at h (messages_attr self)"
  have ct: "count_tokens (state_of self h) = count_tokens_attr self"
    by (simp add: state_of_def)
  have "map (dict_at h) (rev (kept_refs ?cost ?budget 0 (rev ?L)))
      = rev (map (dict_at h) (kept_refs ?cost ?budget 0 (rev ?L)))"
    by (simp only: rev_map)
  also have "\<dots> = rev (render_loop (state_of self h) ?budget (map (dict_at h) (rev ?L)) [] 0)"
    by (simp only: kept_refs_render_loop [OF ct])
  also have "map (dict_at h) (rev ?L) = rev (messages (state_of self h))"
    by (simp add: state_of_def rev_map)
  finally have kept: "map (dict_at h) (rev (kept_refs ?cost ?budget 0 (rev ?L)))
      = rev (render_loop (state_of self h) ?budget (rev (messages (state_of self h))) [] 0)" .
  have budget: "max_tokens (state_of self h) - reserve_tokens (state_of self h) -
      (case system (state_of self h) of None \<Rightarrow> 0
       | Some s \<Rightarrow> message_tokens (state_of self h) s) = ?budget"
    by (cases "system_attr self") (simp_all add: state_of_def message_tokens_def)
  have pinned: "(case system (state_of self h) of None \<Rightarrow> [] | Some s \<Rightarrow> [s])
      = map (dict_at h) (case system_attr self of None \<Rightarrow> [] | Some s \<Rightarrow> [s])"
    by (cases "system_attr self") (simp_all add: state_of_def)
  show ?thesis
    by (simp only: render_kept [of "state_of self h"] budget pinned kept map_append)
qed

section \<open>The estimator\<close>

text \<open>
  C6. The default token estimator returns \<open>max(1, floor(length(text) / 4))\<close> for every
  string, with the quotient taken over the reals and rounded down; so its value is always
  at least 1, and it is 1 on the empty string.
\<close>

theorem estimate_tokens_floor:
  "estimate_tokens txt = max 1 \<lfloor>real (length txt) / 4\<rfloor>
   \<and> 1 \<le> estimate_tokens txt
   \<and> estimate_tokens [] = 1"
proof -
  have "\<lfloor>real (length txt) / real (4::nat)\<rfloor> = int (length txt div 4)"
    by (rule floor_divide_of_nat_eq)
  then have "\<lfloor>real (length txt) / 4\<rfloor> = int (length txt) div 4"
    by (simp add: zdiv_int)
  then show ?thesis
    by (simp add: estimate_tokens_def)
qed

text \<open>
  C4, as stated, fails: the constructor accepts an estimator (a plain function, truthy)
  that returns 0, and the manager then accounts a message at 4, less than \<open>1 + 4\<close>.
\<close>

theorem estimator_unclamped_counterexample:
  "count_tokens (init 4096 512 (Some (Callable True zero_counter))) = zero_counter
   \<and> zero_counter ''hi'' = 0
   \<and> message_tokens (add_user (init 4096 512 (Some (Callable True zero_counter))) ''hi'')
        \<lparr>role = ''user'', content = ''hi''\<rparr> = 4
   \<and> \<not> 1 + 4 \<le> message_tokens (add_user (init 4096 512 (Some (Callable True zero_counter))) ''hi'')
        \<lparr>role = ''user'', content = ''hi''\<rparr>"
  by (simp add: init_def add_user_def add_def message_tokens_def zero_counter_def)

text \<open>
  C4, amended. The manager neither clamps an estimate nor rejects an estimator. The
  estimator in use is the \<^verbatim>\<open>token_counter\<close> passed to the constructor when that
  is truthy and the default estimator otherwise; no method replaces it. In every state
  reached from the constructor the accounted cost of a message is the value of the
  estimator in use on its content, plus the overhead 4; so the cost is at least
  \<open>1 + 4\<close> exactly when that value is at least 1, as it always is when the default
  estimator is the one in use.
\<close>

theorem estimator_used_as_given:
  "count_tokens (exec_all cs (init mt rt tc))
     = (case tc of None \<Rightarrow> estimate_tokens
        | Some c \<Rightarrow> if truth c then call c else estimate_tokens)
   \<and> message_tokens (exec_all cs (init mt rt tc)) m
       = count_tokens (init mt rt tc) (content m) + 4
   \<and> (1 + 4 \<le> message_tokens (exec_all cs (init mt rt tc)) m)
       = (1 \<le> count_tokens (init mt rt tc) (content m))
   \<and> message_tokens (exec_all cs (init mt rt (Some (Callable True f)))) m = f (content m) + 4
   \<and> 1 + 4 \<le> message_tokens (exec_all cs (init mt rt (Some (Callable False f)))) m
   \<and> 1 + 4 \<le> message_tokens (exec_all cs (init mt rt None)) m"
proof -
  have used: "count_tokens (exec_all cs (init mt rt tc')) = count_tokens (init mt rt tc')" for tc'
    by (rule exec_all_count_tokens)
  have given: "count_tokens (init mt rt tc')
      = (case tc' of None \<Rightarrow> estimate_tokens
         | Some c \<Rightarrow> if truth c then call c else estimate_tokens)" for tc'
    by (simp add: init_def)
  have cost: "message_tokens (exec_all cs (init mt rt tc')) m
      = count_tokens (init mt rt tc') (content m) + 4" for tc'
    by (simp add: message_tokens_def used)
  show ?thesis
  proof (intro conjI)
    show "count_tokens (exec_all cs (init mt rt tc))
        = (case tc of None \<Rightarrow> estimate_tokens
           | Some c \<Rightarrow> if truth c then call c else estimate_tokens)"
      by (simp only: used given)
    show "message_tokens (exec_all cs (init mt rt tc)) m
        = count_tokens (init mt rt tc) (content m) + 4"
      by (rule cost)
    show "(1 + 4 \<le> message_tokens (exec_all cs (init mt rt tc)) m)
        = (1 \<le> count_tokens (init mt rt tc) (content m))"
      by (simp add: cost)
    show "message_tokens (exec_all cs (init mt rt (Some (Callable True f)))) m
        = f (content m) + 4"
      by (simp add: cost given)
    show "1 + 4 \<le> message_tokens (exec_all cs (init mt rt (Some (Callable False f)))) m"
      by (simp add: cost given estimate_tokens_pos)
    show "1 + 4 \<le> message_tokens (exec_all cs (init mt rt None)) m"
      by (simp add: cost given estimate_tokens_pos)
  qed
qed

section \<open>Rendering\<close>

text \<open>
  C1. \<^const>\<open>render\<close> computes the greedy newest-first pack of the specification:
  the budget is \<open>max_tokens - reserve_tokens\<close>, less the pinned message's accounted
  cost when one is set; the history is walked from the most recent message and the walk
  stops at the first message with \<open>used + cost > budget\<close>; the kept messages come
  back in chronological order, after the pinned message. In Scenario A
  (\<open>max_tokens = 100\<close>, \<open>reserve_tokens = 20\<close>, the estimator \<open>len\<close>, the
  pinned content \<open>SYS\<close> of cost 7, three history messages of cost 30 each, that is of
  26 characters) the result is the pinned message and the two most recent messages.
\<close>

theorem render_greedy_pack:
  "render self = spec_render self
   \<and> (length c1 = 26 \<and> length c2 = 26 \<and> length c3 = 26 \<longrightarrow>
       (let pinned = \<lparr>role = ''system'', content = ''SYS''\<rparr>;
            msg1 = \<lparr>role = r1, content = c1\<rparr>;
            msg2 = \<lparr>role = r2, content = c2\<rparr>;
            msg3 = \<lparr>role = r3, content = c3\<rparr>;
            cw = add (add (add (set_system (init 100 20 (Some (Callable True len_counter))) ''SYS'')
                      r1 c1) r2 c2) r3 c3
        in message_tokens cw pinned = 7
           \<and> message_tokens cw msg1 = 30
           \<and> message_tokens cw msg2 = 30
           \<and> message_tokens cw msg3 = 30
           \<and> render cw = [pinned, msg2, msg3]))"
proof (intro conjI impI)
  have "spec_cost self = message_tokens self"
    by (rule ext) (simp add: spec_cost_def message_tokens_def)
  then show "render self = spec_render self"
    by (simp add: render_kept spec_render_def render_loop_spec_walk split: option.split)
next
  assume "length c1 = 26 \<and> length c2 = 26 \<and> length c3 = 26"
  then show "let pinned = \<lparr>role = ''system'', content = ''SYS''\<rparr>;
            msg1 = \<lparr>role = r1, content = c1\<rparr>;
            msg2 = \<lparr>role = r2, content = c2\<rparr>;
            msg3 = \<lparr>role = r3, content = c3\<rparr>;
            cw = add (add (add (set_system (init 100 20 (Some (Callable True len_counter))) ''SYS'')
                      r1 c1) r2 c2) r3 c3
        in message_tokens cw pinned = 7
           \<and> message_tokens cw msg1 = 30
           \<and> message_tokens cw msg2 = 30
           \<and> message_tokens cw msg3 = 30
           \<and> render cw = [pinned, msg2, msg3]"
    by (simp add: Let_def render_def init_def set_system_def add_def message_tokens_def
        len_counter_def)
qed

theorem render_greedy_pack_witness:
  "render (add (add (add (set_system (init 100 20 (Some (Callable True len_counter))) ''SYS'')
       ''user'' (replicate 26 CHR ''a''))
       ''assistant'' (replicate 26 CHR ''b''))
       ''user'' (replicate 26 CHR ''c''))
   = [\<lparr>role = ''system'', content = ''SYS''\<rparr>,
      \<lparr>role = ''assistant'', content = replicate 26 CHR ''b''\<rparr>,
      \<lparr>role = ''user'', content = replicate 26 CHR ''c''\<rparr>]"
  using render_greedy_pack [of
      "add (add (add (set_system (init 100 20 (Some (Callable True len_counter))) ''SYS'')
         ''user'' (replicate 26 CHR ''a''))
         ''assistant'' (replicate 26 CHR ''b''))
         ''user'' (replicate 26 CHR ''c'')"
      "replicate 26 CHR ''a''" "replicate 26 CHR ''b''"
      "replicate 26 CHR ''c''" "''user''" "''assistant''" "''user''", THEN conjunct2]
  by (simp add: Let_def)

text \<open>
  C2. In every state, with any estimator, what \<^const>\<open>render\<close> returns is the pinned
  message (when one is set) followed by a contiguous suffix of the history, in the
  history's order. No history message is kept unconditionally: in Scenario B (no pinned
  message, \<open>max_tokens = 50\<close>, \<open>reserve_tokens = 0\<close>, one message of cost 60) the
  result is empty.
\<close>

theorem render_suffix_of_history:
  "(\<exists>kept. render self = (case system self of None \<Rightarrow> [] | Some s \<Rightarrow> [s]) @ kept
            \<and> suffix kept (messages self))
   \<and> (system self = None \<and> max_tokens self = 50 \<and> reserve_tokens self = 0
        \<and> messages self = [m] \<and> message_tokens self m = 60
      \<longrightarrow> render self = [])"
proof (intro conjI impI)
  let ?budget = "max_tokens self - reserve_tokens self -
      (case system self of None \<Rightarrow> 0 | Some s \<Rightarrow> message_tokens self s)"
  let ?kept = "rev (render_loop self ?budget (rev (messages self)) [] 0)"
  have "prefix (render_loop self ?budget (rev (messages self)) [] 0) (rev (messages self))"
    by (rule render_loop_prefix)
  then have "suffix ?kept (messages self)"
    by (simp add: suffix_to_prefix)
  moreover have "render self = (case system self of None \<Rightarrow> [] | Some s \<Rightarrow> [s]) @ ?kept"
    by (rule render_kept)
  ultimately show "\<exists>kept. render self = (case system self of None \<Rightarrow> [] | Some s \<Rightarrow> [s]) @ kept
            \<and> suffix kept (messages self)"
    by blast
next
  assume "system self = None \<and> max_tokens self = 50 \<and> reserve_tokens self = 0
        \<and> messages self = [m] \<and> message_tokens self m = 60"
  then show "render self = []"
    by (simp add: render_def Let_def)
qed

theorem render_suffix_of_history_witness:
  "render (add_user (init 50 0 (Some (Callable True len_counter))) (replicate 56 CHR ''x'')) = []"
  using render_suffix_of_history [of "add_user (init 50 0 (Some (Callable True len_counter))) (replicate 56 CHR ''x'')"
      "\<lparr>role = ''user'', content = replicate 56 CHR ''x''\<rparr>"]
  by (simp add: add_user_def add_def init_def message_tokens_def len_counter_def)

text \<open>
  C5. Under the estimator contract (at least 1 on every text), a budget
  \<open>max_tokens - reserve_tokens\<close> that is not positive once the pinned cost is taken
  off keeps no history message: \<^const>\<open>render\<close> returns the pinned message alone, or
  the empty list when none is set. So with \<open>reserve_tokens \<ge> max_tokens\<close> and no
  pinned message the result is empty for every history; a negative budget is an ordinary
  input of the function.
\<close>

theorem nonpositive_budget_keeps_nothing:
  assumes "\<forall>txt. 1 \<le> count_tokens self txt"
  shows "(max_tokens self - reserve_tokens self
            - (case system self of None \<Rightarrow> 0 | Some s \<Rightarrow> message_tokens self s) \<le> 0
          \<longrightarrow> render self = (case system self of None \<Rightarrow> [] | Some s \<Rightarrow> [s]))
       \<and> (max_tokens self \<le> reserve_tokens self \<and> system self = None
          \<longrightarrow> render self = [])"
proof -
  have "render_loop self budget (rev (messages self)) [] 0 = []" if "budget \<le> 0" for budget
    using assms that by (intro render_loop_nothing_fits) simp_all
  then show ?thesis
    by (simp add: render_kept)
qed

theorem nonpositive_budget_keeps_nothing_witness:
  "max_tokens (add_user (add_user (init 10 20 None) ''hello'') ''world'')
     - reserve_tokens (add_user (add_user (init 10 20 None) ''hello'') ''world'') = - 10
   \<and> render (add_user (add_user (init 10 20 None) ''hello'') ''world'') = []"
  using nonpositive_budget_keeps_nothing [of
      "add_user (add_user (init 10 20 None) ''hello'') ''world''"]
  by (simp add: add_user_def add_def init_def estimate_tokens_def)

text \<open>
  C3. A pinned message that is set is always the first element of what
  \<^const>\<open>render\<close> returns, also when its accounted cost alone is more than the whole
  budget; \<^const>\<open>available_tokens\<close> is \<open>max_tokens\<close> less the sum of the accounted
  costs over that result, and can be negative. When the pinned cost is more than
  \<open>max_tokens - reserve_tokens\<close> and the estimator gives at least 1 on each history
  message (as its contract says; an empty history needs nothing), the result is exactly
  the pinned message. In Scenario C (pinned cost 200, \<open>max_tokens = 100\<close>,
  \<open>reserve_tokens = 0\<close>) \<^const>\<open>available_tokens\<close> is \<open>-100\<close>.
\<close>

theorem pinned_always_rendered:
  "(system self = Some p \<longrightarrow> (\<exists>kept. render self = p # kept))
   \<and> available_tokens self
       = max_tokens self - sum_list (map (message_tokens self) (render self))
   \<and> (system self = Some p
        \<and> max_tokens self - reserve_tokens self < message_tokens self p
        \<and> (\<forall>m\<in>set (messages self). 1 \<le> count_tokens self (content m))
      \<longrightarrow> render self = [p]
          \<and> available_tokens self = max_tokens self - message_tokens self p)
   \<and> (system self = Some p \<and> message_tokens self p = 200
        \<and> max_tokens self = 100 \<and> reserve_tokens self = 0
        \<and> (\<forall>m\<in>set (messages self). 1 \<le> count_tokens self (content m))
      \<longrightarrow> render self = [p] \<and> available_tokens self = - 100)"
proof -
  have first: "\<exists>kept. render self = p # kept" if "system self = Some p"
    using that by (simp add: render_kept)
  have over: "render self = [p]"
    if "system self = Some p"
      and "max_tokens self - reserve_tokens self < message_tokens self p"
      and "\<forall>m\<in>set (messages self). 1 \<le> count_tokens self (content m)"
  proof -
    have "render_loop self (max_tokens self - reserve_tokens self - message_tokens self p)
            (rev (messages self)) [] 0 = []"
      using that by (intro render_loop_nothing_fits) simp_all
    with that(1) show ?thesis by (simp add: render_kept)
  qed
  have avail: "available_tokens self = max_tokens self - message_tokens self p"
    if "render self = [p]"
    using that by (simp add: available_tokens_sum)
  show ?thesis
  proof (intro conjI impI)
    show "\<exists>kept. render self = p # kept" if "system self = Some p"
      using that by (rule first)
    show "available_tokens self
       = max_tokens self - sum_list (map (message_tokens self) (render self))"
      by (rule available_tokens_sum)
  next
    assume a: "system self = Some p
        \<and> max_tokens self - reserve_tokens self < message_tokens self p
        \<and> (\<forall>m\<in>set (messages self). 1 \<le> count_tokens self (content m))"
    then show "render self = [p]" by (intro over) simp_all
    then show "available_tokens self = max_tokens self - message_tokens self p"
      by (rule avail)
  next
    assume a: "system self = Some p \<and> message_tokens self p = 200
        \<and> max_tokens self = 100 \<and> reserve_tokens self = 0
        \<and> (\<forall>m\<in>set (messages self). 1 \<le> count_tokens self (content m))"
    then show r: "render self = [p]" by (intro over) simp_all
    from avail [OF r] a show "available_tokens self = - 100" by simp
  qed
qed

theorem pinned_always_rendered_witness:
  "render (add_user (set_system (init 100 0 (Some (Callable True len_counter))) (replicate 196 CHR ''x''))
             ''hello'')
     = [\<lparr>role = ''system'', content = replicate 196 CHR ''x''\<rparr>]
   \<and> available_tokens
       (add_user (set_system (init 100 0 (Some (Callable True len_counter))) (replicate 196 CHR ''x''))
          ''hello'') = - 100"
  using pinned_always_rendered [of
      "add_user (set_system (init 100 0 (Some (Callable True len_counter))) (replicate 196 CHR ''x'')) ''hello''"
      "\<lparr>role = ''system'', content = replicate 196 CHR ''x''\<rparr>",
      THEN conjunct2, THEN conjunct2, THEN conjunct2]
  by (simp add: add_user_def add_def set_system_def init_def message_tokens_def
      len_counter_def)

text \<open>
  C9. \<^verbatim>\<open>render\<close> is idempotent. Run on the heap, where the history is an
  allocated list object, \<^verbatim>\<open>render\<close> writes only to the two list objects it
  makes itself: the attributes, the history list and the dictionaries are as before. So a
  second call right after the first returns a new list holding the same references in the
  same order, hence the same messages, and these are the messages the function
  \<^const>\<open>render\<close> gives on the state; the first call's list is not touched by the
  second.
\<close>

theorem render_idempotent:
  assumes "messages_attr self < next_list h"
  shows "(case render_h self h of (r1, h1) \<Rightarrow>
           case render_h self h1 of (r2, h2) \<Rightarrow>
             list_at h2 r2 = list_at h1 r1
           \<and> map (dict_at h2) (list_at h2 r2) = map (dict_at h1) (list_at h1 r1)
           \<and> map (dict_at h1) (list_at h1 r1) = render (state_of self h)
           \<and> state_of self h1 = state_of self h
           \<and> state_of self h2 = state_of self h
           \<and> r2 \<noteq> r1
           \<and> list_at h2 r1 = list_at h1 r1
           \<and> messages_attr self < next_list h1)"
proof -
  have fresh: "messages_attr self \<noteq> next_list h" "messages_attr self \<noteq> Suc (next_list h)"
    "messages_attr self \<noteq> Suc (Suc (next_list h))"
    "messages_attr self \<noteq> Suc (Suc (Suc (next_list h)))"
    "messages_attr self < Suc (Suc (next_list h))"
    using assms by simp_all
  show ?thesis
    by (simp add: render_h_result assms fresh render_state_of cong: option.case_cong)
      (simp add: state_of_def fresh)
qed

theorem render_idempotent_witness:
  "(case render_h
      \<lparr>max_tokens_attr = 20, reserve_tokens_attr = 5, count_tokens_attr = estimate_tokens,
        system_attr = Some 0, messages_attr = 0\<rparr>
      \<lparr>list_at = (\<lambda>_. [])(0 := [1, 2, 3]),
        dict_at = (\<lambda>_. \<lparr>role = [], content = []\<rparr>)
          (0 := \<lparr>role = ''system'', content = ''SYS''\<rparr>,
           1 := \<lparr>role = ''user'', content = ''one''\<rparr>,
           2 := \<lparr>role = ''assistant'', content = ''two''\<rparr>,
           3 := \<lparr>role = ''user'', content = ''three''\<rparr>),
        next_list = 1\<rparr> of
     (r1, h1) \<Rightarrow>
       case render_h
         \<lparr>max_tokens_attr = 20, reserve_tokens_attr = 5, count_tokens_attr = estimate_tokens,
           system_attr = Some 0, messages_attr = 0\<rparr> h1 of
       (r2, h2) \<Rightarrow>
         r1 = 1 \<and> r2 = 3
         \<and> list_at h1 r1 = [0, 2, 3]
         \<and> list_at h2 r2 = [0, 2, 3]
         \<and> list_at h2 r1 = [0, 2, 3]
         \<and> list_at h2 0 = [1, 2, 3]
         \<and> map (dict_at h2) (list_at h2 r2) =
             [\<lparr>role = ''system'', content = ''SYS''\<rparr>,
              \<lparr>role = ''assistant'', content = ''two''\<rparr>,
              \<lparr>role = ''user'', content = ''three''\<rparr>])"
  using render_idempotent [of
      "\<lparr>max_tokens_attr = 20, reserve_tokens_attr = 5, count_tokens_attr = estimate_tokens,
        system_attr = Some 0, messages_attr = 0\<rparr>"
      "\<lparr>list_at = (\<lambda>_. [])(0 := [1, 2, 3]),
        dict_at = (\<lambda>_. \<lparr>role = [], content = []\<rparr>)
          (0 := \<lparr>role = ''system'', content = ''SYS''\<rparr>,
           1 := \<lparr>role = ''user'', content = ''one''\<rparr>,
           2 := \<lparr>role = ''assistant'', content = ''two''\<rparr>,
           3 := \<lparr>role = ''user'', content = ''three''\<rparr>),
        next_list = 1\<rparr>"]
  by (simp add: render_h_def new_list_def list_append_def list_reverse_def list_extend_def
      message_tokens_h_def estimate_tokens_def Let_def)

text \<open>
  C10, as stated, fails when no pinned message is set and \<open>reserve_tokens\<close> is more
  than \<open>max_tokens\<close>: with the default estimator, \<open>max_tokens = 10\<close> and
  \<open>reserve_tokens = 20\<close>, nothing is rendered, the sum 0 is more than
  \<open>max_tokens - reserve_tokens = -10\<close>, and \<^const>\<open>available_tokens\<close> is 10,
  less than \<open>reserve_tokens\<close>.
\<close>

theorem headroom_counterexample:
  "count_tokens (add_user (init 10 20 None) ''hello'') = estimate_tokens
   \<and> system (add_user (init 10 20 None) ''hello'') = None
   \<and> render (add_user (init 10 20 None) ''hello'') = []
   \<and> \<not> sum_list (map (message_tokens (add_user (init 10 20 None) ''hello''))
             (render (add_user (init 10 20 None) ''hello'')))
         \<le> max_tokens (add_user (init 10 20 None) ''hello'')
             - reserve_tokens (add_user (init 10 20 None) ''hello'')
   \<and> available_tokens (add_user (init 10 20 None) ''hello'') = 10
   \<and> \<not> reserve_tokens (add_user (init 10 20 None) ''hello'')
         \<le> available_tokens (add_user (init 10 20 None) ''hello'')"
  by (simp add: available_tokens_def render_def Let_def add_user_def add_def init_def
      message_tokens_def estimate_tokens_def)

text \<open>
  C10, amended. Whenever the pinned message's accounted cost, counted as 0 when no pinned
  message is set, is at most \<open>max_tokens - reserve_tokens\<close>, the sum of the accounted
  costs over what \<^const>\<open>render\<close> returns is at most
  \<open>max_tokens - reserve_tokens\<close>, and so \<^const>\<open>available_tokens\<close> is at least
  \<open>reserve_tokens\<close>. This holds for every estimator, hence also under the contract.
\<close>

theorem response_headroom:
  assumes "(case system self of None \<Rightarrow> 0 | Some s \<Rightarrow> message_tokens self s)
             \<le> max_tokens self - reserve_tokens self"
  shows "sum_list (map (message_tokens self) (render self))
           \<le> max_tokens self - reserve_tokens self
         \<and> reserve_tokens self \<le> available_tokens self"
proof -
  let ?p = "case system self of None \<Rightarrow> 0 | Some s \<Rightarrow> message_tokens self s"
  let ?budget = "max_tokens self - reserve_tokens self - ?p"
  have "sum_list (map (message_tokens self)
          (render_loop self ?budget (rev (messages self)) [] 0)) \<le> max 0 ?budget"
    by (rule render_loop_sum_max)
  moreover have "0 \<le> ?budget"
    using assms by simp
  ultimately have "sum_list (map (message_tokens self) (render self))
      \<le> max_tokens self - reserve_tokens self"
    by (simp add: sum_render)
  then show ?thesis
    by (simp add: available_tokens_sum)
qed

theorem response_headroom_witness:
  "sum_list (map (message_tokens (add_user (add_user (set_system (init 30 10 None) ''SYS'') ''hello'') ''world''))
      (render (add_user (add_user (set_system (init 30 10 None) ''SYS'') ''hello'') ''world'')))
     \<le> 20
   \<and> 10 \<le> available_tokens (add_user (add_user (set_system (init 30 10 None) ''SYS'') ''hello'') ''world'')"
  using response_headroom [of
      "add_user (add_user (set_system (init 30 10 None) ''SYS'') ''hello'') ''world''"]
  by (simp add: add_user_def add_def set_system_def init_def message_tokens_def
      estimate_tokens_def)

section \<open>The unclamped total\<close>

text \<open>
  C8. \<^const>\<open>token_count\<close> is the sum of the accounted costs of the pinned message
  (when set) and of every history message; the budget plays no part. Appending a message
  adds exactly its accounted cost, and appending a list of messages adds the sum of
  theirs. Under the estimator contract each message costs at least 5, so the total
  passes every bound, \<open>max_tokens\<close> included. \<^const>\<open>available_tokens\<close> is
  computed from what \<^const>\<open>render\<close> returns and stays clamped: however many messages
  are appended it is at least the smaller of \<open>reserve_tokens\<close> and
  \<open>max_tokens\<close> less the pinned cost.
\<close>

theorem token_count_unclamped:
  "token_count self
     = (case system self of None \<Rightarrow> 0 | Some s \<Rightarrow> message_tokens self s)
       + sum_list (map (message_tokens self) (messages self))
   \<and> token_count (add self r c)
       = token_count self + message_tokens self \<lparr>role = r, content = c\<rparr>
   \<and> token_count (exec_all (map (\<lambda>m. Add (role m) (content m)) (ms :: message list)) self)
       = token_count self + sum_list (map (message_tokens self) ms)
   \<and> ((\<forall>txt. 1 \<le> count_tokens self txt) \<longrightarrow>
        token_count self + 5 * int (length ms)
          \<le> token_count (exec_all (map (\<lambda>m. Add (role m) (content m)) ms) self)
        \<and> (\<forall>bound. \<exists>ms' :: message list. bound
              < token_count (exec_all (map (\<lambda>m. Add (role m) (content m)) ms') self)))
   \<and> available_tokens self
       = max_tokens self - sum_list (map (message_tokens self) (render self))
   \<and> min (reserve_tokens self)
         (max_tokens self - (case system self of None \<Rightarrow> 0 | Some s \<Rightarrow> message_tokens self s))
       \<le> available_tokens (exec_all (map (\<lambda>m. Add (role m) (content m)) ms) self)"
proof -
  let ?app = "\<lambda>ms. exec_all (map (\<lambda>m. Add (role m) (content m)) ms) self"
  have lower: "token_count self + 5 * int (length ms') \<le> token_count (?app ms')"
    if "\<forall>txt. 1 \<le> count_tokens self txt" for ms' :: "message list"
  proof -
    have "\<forall>m\<in>set ms'. 5 \<le> message_tokens self m"
      using that by (simp add: message_tokens_def)
    then have "5 * int (length ms') \<le> sum_list (map (message_tokens self) ms')"
      by (rule sum_list_lower)
    then show ?thesis by (simp add: token_count_add_all)
  qed
  have unbounded: "\<exists>ms' :: message list. bound < token_count (?app ms')"
    if "\<forall>txt. 1 \<le> count_tokens self txt" for bound
  proof -
    let ?n = "nat (bound - token_count self) + 1"
    have "bound < token_count self + 5 * int ?n" by simp
    also have "\<dots> \<le> token_count (?app (replicate ?n \<lparr>role = ''user'', content = ''''\<rparr>))"
      using lower [OF that, of "replicate ?n \<lparr>role = ''user'', content = ''''\<rparr>"] by simp
    finally show ?thesis by blast
  qed
  have frame: "max_tokens (exec_all (map (\<lambda>m. Add (role m) (content m)) ms') s) = max_tokens s
      \<and> reserve_tokens (exec_all (map (\<lambda>m. Add (role m) (content m)) ms') s) = reserve_tokens s
      \<and> system (exec_all (map (\<lambda>m. Add (role m) (content m)) ms') s) = system s
      \<and> count_tokens (exec_all (map (\<lambda>m. Add (role m) (content m)) ms') s) = count_tokens s"
    for ms' :: "message list" and s
    by (induction ms' arbitrary: s) (simp_all add: add_def)
  have "message_tokens (?app ms) = message_tokens self"
    by (rule message_tokens_cong) (simp add: frame)
  with available_tokens_clamped [of "?app ms"]
  have clamped: "min (reserve_tokens self)
         (max_tokens self - (case system self of None \<Rightarrow> 0 | Some s \<Rightarrow> message_tokens self s))
       \<le> available_tokens (?app ms)"
    by (simp add: frame cong: option.case_cong)
  show ?thesis
  proof (intro conjI impI allI)
    show "token_count self
        = (case system self of None \<Rightarrow> 0 | Some s \<Rightarrow> message_tokens self s)
          + sum_list (map (message_tokens self) (messages self))"
      by (rule token_count_sum)
    show "token_count (add self r c)
        = token_count self + message_tokens self \<lparr>role = r, content = c\<rparr>"
      by (rule token_count_add)
    show "token_count (?app ms) = token_count self + sum_list (map (message_tokens self) ms)"
      by (rule token_count_add_all)
    show "available_tokens self
        = max_tokens self - sum_list (map (message_tokens self) (render self))"
      by (rule available_tokens_sum)
    show "min (reserve_tokens self)
         (max_tokens self - (case system self of None \<Rightarrow> 0 | Some s \<Rightarrow> message_tokens self s))
       \<le> available_tokens (?app ms)"
      by (rule clamped)
  next
    assume contract: "\<forall>txt. 1 \<le> count_tokens self txt"
    show "token_count self + 5 * int (length ms) \<le> token_count (?app ms)"
      by (rule lower [OF contract])
    show "\<exists>ms' :: message list. bound < token_count (?app ms')" for bound
      by (rule unbounded [OF contract])
  qed
qed

theorem token_count_unclamped_witness:
  "max_tokens (init 20 5 None) = 20
   \<and> token_count (exec_all (map (\<lambda>m. Add (role m) (content m))
        [\<lparr>role = ''user'', content = ''one''\<rparr>, \<lparr>role = ''assistant'', content = ''two''\<rparr>,
         \<lparr>role = ''user'', content = ''three''\<rparr>, \<lparr>role = ''assistant'', content = ''four''\<rparr>,
         \<lparr>role = ''user'', content = ''five''\<rparr>]) (init 20 5 None)) = 25
   \<and> 5 \<le> available_tokens (exec_all (map (\<lambda>m. Add (role m) (content m))
        [\<lparr>role = ''user'', content = ''one''\<rparr>, \<lparr>role = ''assistant'', content = ''two''\<rparr>,
         \<lparr>role = ''user'', content = ''three''\<rparr>, \<lparr>role = ''assistant'', content = ''four''\<rparr>,
         \<lparr>role = ''user'', content = ''five''\<rparr>]) (init 20 5 None))"
  using token_count_unclamped [where self = "init 20 5 None" and ms =
      "[\<lparr>role = ''user'', content = ''one''\<rparr>, \<lparr>role = ''assistant'', content = ''two''\<rparr>,
        \<lparr>role = ''user'', content = ''three''\<rparr>, \<lparr>role = ''assistant'', content = ''four''\<rparr>,
        \<lparr>role = ''user'', content = ''five''\<rparr>]"]
  by (simp add: init_def message_tokens_def estimate_tokens_def)

section \<open>Clearing\<close>

text \<open>
  C7. \<^verbatim>\<open>clear(keep_system=True)\<close> empties the history and leaves the pinned
  message, \<open>max_tokens\<close>, \<open>reserve_tokens\<close> and the estimator as they were, so
  \<^const>\<open>render\<close> then returns the pinned message alone (nothing when none is set);
  \<^verbatim>\<open>clear(keep_system=False)\<close> also unsets the pinned message, and
  \<^const>\<open>render\<close> then returns the empty list, also when it follows the first call.
  Both calls return \<^verbatim>\<open>None\<close> and a state: there is no failure.
\<close>

theorem clear_frame:
  "messages (clear self True) = []
   \<and> system (clear self True) = system self
   \<and> max_tokens (clear self True) = max_tokens self
   \<and> reserve_tokens (clear self True) = reserve_tokens self
   \<and> count_tokens (clear self True) = count_tokens self
   \<and> render (clear self True) = (case system self of None \<Rightarrow> [] | Some p \<Rightarrow> [p])
   \<and> messages (clear self False) = []
   \<and> system (clear self False) = None
   \<and> max_tokens (clear self False) = max_tokens self
   \<and> reserve_tokens (clear self False) = reserve_tokens self
   \<and> count_tokens (clear self False) = count_tokens self
   \<and> render (clear self False) = []
   \<and> render (clear (clear self True) False) = []
   \<and> exec (Clear True) self = (NoneReply, self\<lparr>messages := []\<rparr>)
   \<and> exec (Clear False) self = (NoneReply, self\<lparr>messages := [], system := None\<rparr>)"
  by (simp add: clear_def render_def Let_def split: option.split)

end
